theory Spec2Isabelle
  imports Complex_Main
begin

section \<open>LED indications of the drive slots (lib/gui/app/models/leds.ts)\<close>

text \<open>
  The module keeps a registry \<open>leds\<close> from drive paths to RGB LED objects.  On every
  change of the application state it sorts the drive paths into sets and calls, for
  every path of every set, \<open>setStaticColor\<close> or \<open>setAnimation\<close> on the LED
  registered for the path.

  JavaScript numbers are modelled as real numbers (the counters as integers): rounding
  of IEEE doubles, NaN and the infinities are outside the model.
\<close>

subsection \<open>Colours and animations\<close>

type_synonym Color = "real \<times> real \<times> real"

type_synonym AnimationFunction = "real \<Rightarrow> Color"

definition red :: Color where "red = (1, 0, 0)"
definition green :: Color where "green = (0, 1, 0)"
definition blue :: Color where "blue = (0, 0, 1)"
definition white :: Color where "white = (1, 1, 1)"
definition black :: Color where "black = (0, 0, 0)"

text \<open>
  The remainder operator \<open>%\<close> of JavaScript on integral operands: the result has the
  sign of the dividend.
\<close>

definition js_rem :: "int \<Rightarrow> int \<Rightarrow> int" where
  "js_rem a b = sgn a * (\<bar>a\<bar> mod \<bar>b\<bar>)"

definition breatheBlue :: AnimationFunction where
  "breatheBlue t = (let intensity = (1 + sin (t / 1000)) / 2 in (0, 0, intensity))"

definition blinkGreen :: AnimationFunction where
  "blinkGreen t = (let intensity = js_rem \<lfloor>t / 1000\<rfloor> 2 in (0, of_int intensity, 0))"

definition blinkPurple :: AnimationFunction where
  "blinkPurple t =
     (let intensity = js_rem \<lfloor>t / 1000\<rfloor> 2 in (of_int intensity / 2, 0, of_int intensity))"

text \<open>
  The second parameter of \<open>setLeds\<close> has the type \<open>Color | AnimationFunction\<close>;
  \<open>Array.isArray\<close> tells the two apart.
\<close>

datatype ColorOrAnimation = Solid Color | Animated AnimationFunction

subsection \<open>JavaScript sets of strings\<close>

text \<open>
  A \<open>Set\<close> iterates in insertion order and holds every element once: a list without
  repetition.  \<open>new Set(xs)\<close> adds the elements of \<open>xs\<close> one after the other, and
  adding an element that is present changes nothing.
\<close>

definition Set_add :: "'a \<Rightarrow> 'a list \<Rightarrow> 'a list" where
  "Set_add x s = (if x \<in> set s then s else s @ [x])"

definition new_Set :: "'a list \<Rightarrow> 'a list" where
  "new_Set xs = foldl (\<lambda>s x. Set_add x s) [] xs"

definition Set_delete :: "'a \<Rightarrow> 'a list \<Rightarrow> 'a list" where
  "Set_delete x s = removeAll x s"

definition Set_has :: "'a \<Rightarrow> 'a list \<Rightarrow> bool" where
  "Set_has x s = (x \<in> set s)"

text \<open>The loop \<open>for (const d of ds) { s.delete(d); }\<close>.\<close>

fun delete_each :: "'a list \<Rightarrow> 'a list \<Rightarrow> 'a list" where
  "delete_each [] s = s"
| "delete_each (d # ds) s = delete_each ds (Set_delete d s)"

subsection \<open>The registry and the LED driver\<close>

text \<open>
  An \<open>RGBLed\<close> object belongs to the driver library.  The module only ever calls
  \<open>setStaticColor\<close> and \<open>setAnimation\<close> on it, so the object is modelled by the calls
  it has received, the oldest first.  The registry \<open>leds\<close> is a \<open>Map\<close>: its entries in
  insertion order.
\<close>

datatype led_call = setStaticColor Color | setAnimation AnimationFunction

type_synonym RGBLed = "led_call list"

type_synonym leds_map = "(string \<times> RGBLed) list"

text \<open>A call on the LED object stored under \<open>path\<close>.\<close>

definition led_call_on :: "string \<Rightarrow> led_call \<Rightarrow> leds_map \<Rightarrow> leds_map" where
  "led_call_on path c leds =
     map (\<lambda>(k, led). if k = path then (k, led @ [c]) else (k, led)) leds"

text \<open>
  \<open>setLeds\<close>: for every path of the set, \<open>leds.get(path)\<close>; a path without LED is
  passed over.
\<close>

fun setLeds :: "string list \<Rightarrow> ColorOrAnimation \<Rightarrow> leds_map \<Rightarrow> leds_map" where
  "setLeds [] colorOrAnimation leds = leds"
| "setLeds (path # drivesPaths) colorOrAnimation leds =
     setLeds drivesPaths colorOrAnimation
       (case map_of leds path of
          None \<Rightarrow> leds
        | Some led \<Rightarrow>
            (case colorOrAnimation of
               Solid c \<Rightarrow> led_call_on path (setStaticColor c) leds
             | Animated f \<Rightarrow> led_call_on path (setAnimation f) leds))"

text \<open>What the LED of a path displays: the last call it received, if any.\<close>

definition shown :: "leds_map \<Rightarrow> string \<Rightarrow> led_call option" where
  "shown leds path =
     (case map_of leds path of
        None \<Rightarrow> None
      | Some led \<Rightarrow> (if led = [] then None else Some (last led)))"

subsection \<open>updateLeds\<close>

datatype step = step_main | step_flashing | step_verifying | step_finish

text \<open>
  The four sets of \<open>updateLeds\<close>.  The field \<open>source\<close> holds the set
  \<open>new Set([sourceDrivePath])\<close> that the source branch hands to \<open>setLeds\<close>; it is
  empty when no branch is taken.
\<close>

record categories =
  source :: "string list"
  unplugged :: "string list"
  plugged :: "string list"
  selectedOk :: "string list"
  selectedFailed :: "string list"

text \<open>Lines 84 to 102: the sets and the three removal loops.\<close>

definition initial_sets :: "leds_map \<Rightarrow> string list \<Rightarrow> string list \<Rightarrow> string list \<Rightarrow> categories" where
  "initial_sets leds availableDrives selectedDrives failedDrives =
     (let unplugged0 = new_Set (map fst leds);
          plugged0 = new_Set availableDrives;
          selectedOk0 = new_Set selectedDrives;
          selectedFailed0 = new_Set failedDrives;
          plugged1 = delete_each selectedOk0 plugged0;
          unplugged1 = delete_each plugged1 unplugged0;
          selectedOk1 = delete_each selectedFailed0 selectedOk0
      in \<lparr>source = [], unplugged = unplugged1, plugged = plugged1,
          selectedOk = selectedOk1, selectedFailed = selectedFailed0\<rparr>)"

text \<open>Lines 104 to 113: the source slot.\<close>

definition handle_source :: "string option \<Rightarrow> categories \<Rightarrow> leds_map \<Rightarrow> categories \<times> leds_map" where
  "handle_source sourceDrivePath cs leds =
     (case sourceDrivePath of
        None \<Rightarrow> (cs, leds)
      | Some src \<Rightarrow>
          if Set_has src (unplugged cs) then
            (cs\<lparr>source := new_Set [src], unplugged := Set_delete src (unplugged cs)\<rparr>,
             setLeds (new_Set [src]) (Animated breatheBlue) leds)
          else if Set_has src (plugged cs) then
            (cs\<lparr>source := new_Set [src], plugged := Set_delete src (plugged cs)\<rparr>,
             setLeds (new_Set [src]) (Solid blue) leds)
          else (cs, leds))"

text \<open>Lines 116 to 136: the four sets are served in a fixed order.\<close>

definition apply_step :: "step \<Rightarrow> categories \<Rightarrow> leds_map \<Rightarrow> leds_map" where
  "apply_step st cs leds =
     (case st of
        step_main \<Rightarrow>
          setLeds (selectedFailed cs) (Solid white)
            (setLeds (selectedOk cs) (Solid white)
              (setLeds (plugged cs) (Solid black)
                (setLeds (unplugged cs) (Solid black) leds)))
      | step_flashing \<Rightarrow>
          setLeds (selectedFailed cs) (Solid red)
            (setLeds (selectedOk cs) (Animated blinkGreen)
              (setLeds (plugged cs) (Solid black)
                (setLeds (unplugged cs) (Solid black) leds)))
      | step_verifying \<Rightarrow>
          setLeds (selectedFailed cs) (Solid red)
            (setLeds (selectedOk cs) (Animated blinkPurple)
              (setLeds (plugged cs) (Solid black)
                (setLeds (unplugged cs) (Solid black) leds)))
      | step_finish \<Rightarrow>
          setLeds (selectedFailed cs) (Solid red)
            (setLeds (selectedOk cs) (Solid green)
              (setLeds (plugged cs) (Solid black)
                (setLeds (unplugged cs) (Solid black) leds))))"

text \<open>The sets as they are when \<open>updateLeds\<close> logs them (line 114).\<close>

definition updateLeds_sets ::
  "string option \<Rightarrow> string list \<Rightarrow> string list \<Rightarrow> string list \<Rightarrow> leds_map \<Rightarrow> categories" where
  "updateLeds_sets sourceDrivePath availableDrives selectedDrives failedDrives leds =
     fst (handle_source sourceDrivePath
            (initial_sets leds availableDrives selectedDrives failedDrives) leds)"

definition updateLeds ::
  "step \<Rightarrow> string option \<Rightarrow> string list \<Rightarrow> string list \<Rightarrow> string list \<Rightarrow> leds_map \<Rightarrow> leds_map" where
  "updateLeds st sourceDrivePath availableDrives selectedDrives failedDrives leds =
     (case handle_source sourceDrivePath
             (initial_sets leds availableDrives selectedDrives failedDrives) leds of
        (cs, leds') \<Rightarrow> apply_step st cs leds')"

subsection \<open>The observer of the application state\<close>

text \<open>
  The snapshot \<open>state.toJS()\<close>, with the fields that the observer reads.  A field that
  may be missing or undefined is an option.
\<close>

record DeviceFromState =
  devicePath :: "string option"
  device :: string

record flash_error =
  error_device :: string

record flash_results_results =
  errors :: "flash_error list option"

record flash_results =
  results :: "flash_results_results option"

record flash_state =
  flashing :: int

record selection_state =
  devices :: "string list"

record state =
  isFlashing :: bool
  flashState :: flash_state
  lastAverageFlashingSpeed :: "real option"
  availableDrives :: "DeviceFromState list"
  selection :: selection_state
  flashResults :: "flash_results option"

text \<open>Lines 161 to 166.\<close>

definition step_of :: "state \<Rightarrow> step" where
  "step_of s =
     (if isFlashing s then
        (if flashing (flashState s) > 0 then step_flashing else step_verifying)
      else
        (if lastAverageFlashingSpeed s = None then step_main else step_finish))"

text \<open>
  \<open>d.devicePath\<close> as a condition: a string that is defined and not empty.  Every
  device that passes the filter of line 168 has one, so the first case of
  \<open>devicePath_of\<close> is never met there.
\<close>

definition has_devicePath :: "DeviceFromState \<Rightarrow> bool" where
  "has_devicePath d = (case devicePath d of None \<Rightarrow> False | Some p \<Rightarrow> p \<noteq> [])"

definition devicePath_of :: "DeviceFromState \<Rightarrow> string" where
  "devicePath_of d = (case devicePath d of None \<Rightarrow> [] | Some p \<Rightarrow> p)"

definition available_of :: "state \<Rightarrow> DeviceFromState list" where
  "available_of s = filter has_devicePath (availableDrives s)"

text \<open>
  \<open>isSourceDrive\<close> is imported from another module and is a parameter here.
  \<open>Array.prototype.filter\<close> calls it with the element and its index.
\<close>

definition sourceDrivePath_of :: "(DeviceFromState \<Rightarrow> nat \<Rightarrow> bool) \<Rightarrow> state \<Rightarrow> string option" where
  "sourceDrivePath_of isSourceDrive s =
     (case filter (\<lambda>(i, d). isSourceDrive d i) (enumerate 0 (available_of s)) of
        [] \<Rightarrow> None
      | (i, d) # _ \<Rightarrow> devicePath d)"

definition getDrivesPaths :: "DeviceFromState list \<Rightarrow> string list \<Rightarrow> string list" where
  "getDrivesPaths available drives =
     map devicePath_of (filter (\<lambda>d. device d \<in> set drives) available)"

text \<open>Lines 183 to 186: the optional chain, with \<open>|| []\<close> for an undefined link.\<close>

definition failedDrives_of :: "state \<Rightarrow> string list" where
  "failedDrives_of s =
     (case flashResults s of
        None \<Rightarrow> []
      | Some fr \<Rightarrow>
          (case results fr of
             None \<Rightarrow> []
           | Some r \<Rightarrow>
               (case errors r of
                  None \<Rightarrow> []
                | Some es \<Rightarrow> map error_device es)))"

definition failedDrivesPaths_of :: "state \<Rightarrow> string list" where
  "failedDrivesPaths_of s = getDrivesPaths (available_of s) (failedDrives_of s)"

definition observer :: "(DeviceFromState \<Rightarrow> nat \<Rightarrow> bool) \<Rightarrow> state \<Rightarrow> leds_map \<Rightarrow> leds_map" where
  "observer isSourceDrive s leds =
     updateLeds (step_of s) (sourceDrivePath_of isSourceDrive s)
       (map devicePath_of (available_of s))
       (getDrivesPaths (available_of s) (devices (selection s)))
       (failedDrivesPaths_of s) leds"

text \<open>The sets that this call of \<open>updateLeds\<close> works with.\<close>

definition observer_sets :: "(DeviceFromState \<Rightarrow> nat \<Rightarrow> bool) \<Rightarrow> state \<Rightarrow> leds_map \<Rightarrow> categories" where
  "observer_sets isSourceDrive s leds =
     updateLeds_sets (sourceDrivePath_of isSourceDrive s)
       (map devicePath_of (available_of s))
       (getDrivesPaths (available_of s) (devices (selection s)))
       (failedDrivesPaths_of s) leds"

subsection \<open>Notions for the statements\<close>

text \<open>A path is registered when \<open>leds.get(path)\<close> finds an LED.\<close>

definition registered :: "leds_map \<Rightarrow> string \<Rightarrow> bool" where
  "registered leds path = (map_of leds path \<noteq> None)"

text \<open>The driver call that \<open>setLeds\<close> makes for a colour or an animation.\<close>

definition call_of :: "ColorOrAnimation \<Rightarrow> led_call" where
  "call_of ca = (case ca of Solid c \<Rightarrow> setStaticColor c | Animated f \<Rightarrow> setAnimation f)"

text \<open>
  The table of the specification: the indication of each of the four sets at each step.
\<close>

datatype category = Unplugged | Plugged | SelectedOk | SelectedFailed

fun step_table :: "step \<Rightarrow> category \<Rightarrow> ColorOrAnimation" where
  "step_table st Unplugged = Solid black"
| "step_table st Plugged = Solid black"
| "step_table step_main SelectedOk = Solid white"
| "step_table step_flashing SelectedOk = Animated blinkGreen"
| "step_table step_verifying SelectedOk = Animated blinkPurple"
| "step_table step_finish SelectedOk = Solid green"
| "step_table step_main SelectedFailed = Solid white"
| "step_table step_flashing SelectedFailed = Solid red"
| "step_table step_verifying SelectedFailed = Solid red"
| "step_table step_finish SelectedFailed = Solid red"

text \<open>In how many of the given sets a path lies.\<close>

definition occurrences :: "string \<Rightarrow> string list list \<Rightarrow> nat" where
  "occurrences path sets = length (filter (\<lambda>s. path \<in> set s) sets)"

definition five_sets :: "categories \<Rightarrow> string list list" where
  "five_sets cs = [source cs, unplugged cs, plugged cs, selectedOk cs, selectedFailed cs]"

text \<open>
  The call that the source branch makes: solid blue for a path that is available and not
  selected (it is in \<open>plugged\<close> then), the breathing animation otherwise.
\<close>

definition source_call :: "string list \<Rightarrow> string list \<Rightarrow> string \<Rightarrow> led_call" where
  "source_call a s p =
     (if p \<in> set a \<and> p \<notin> set s then setStaticColor blue else setAnimation breatheBlue)"

text \<open>
  The calls that one run of \<open>updateLeds\<close> makes on the LED of a path, given the sets
  of the run: one call for every set that holds the path, in the order of the code.
\<close>

definition calls_in_update :: "step \<Rightarrow> categories \<Rightarrow> string list \<Rightarrow> string list \<Rightarrow> string \<Rightarrow> led_call list" where
  "calls_in_update st cs a s q =
     (if q \<in> set (source cs) then [source_call a s q] else []) @
     (if q \<in> set (unplugged cs) then [call_of (step_table st Unplugged)] else []) @
     (if q \<in> set (plugged cs) then [call_of (step_table st Plugged)] else []) @
     (if q \<in> set (selectedOk cs) then [call_of (step_table st SelectedOk)] else []) @
     (if q \<in> set (selectedFailed cs) then [call_of (step_table st SelectedFailed)] else [])"

text \<open>A snapshot with one available drive, which is selected, for the examples.\<close>

definition snapshot :: "bool \<Rightarrow> int \<Rightarrow> real option \<Rightarrow> flash_results option \<Rightarrow> state" where
  "snapshot f n v r =
     \<lparr>isFlashing = f, flashState = \<lparr>flashing = n\<rparr>, lastAverageFlashingSpeed = v,
      availableDrives =
        [\<lparr>devicePath = Some ''/dev/disk/by-path/B'', device = ''/dev/sdb''\<rparr>],
      selection = \<lparr>devices = [''/dev/sdb'']\<rparr>, flashResults = r\<rparr>"

section \<open>Basic facts\<close>

subsection \<open>Sets\<close>

lemma set_Set_add: "set (Set_add x s) = insert x (set s)"
  by (auto simp: Set_add_def)

lemma set_foldl_Set_add: "set (foldl (\<lambda>s x. Set_add x s) acc xs) = set acc \<union> set xs"
  by (induction xs arbitrary: acc) (auto simp: set_Set_add)

lemma set_new_Set: "set (new_Set xs) = set xs"
  by (simp add: new_Set_def set_foldl_Set_add)

lemma distinct_Set_add: "distinct s \<Longrightarrow> distinct (Set_add x s)"
  by (simp add: Set_add_def)

lemma distinct_foldl_Set_add: "distinct acc \<Longrightarrow> distinct (foldl (\<lambda>s x. Set_add x s) acc xs)"
  by (induction xs arbitrary: acc) (auto simp: distinct_Set_add)

lemma distinct_new_Set: "distinct (new_Set xs)"
  by (simp add: new_Set_def distinct_foldl_Set_add)

lemma new_Set_single: "new_Set [x] = [x]"
  by (simp add: new_Set_def Set_add_def)

lemma new_Set_Nil: "new_Set [] = []"
  by (simp add: new_Set_def)

lemma set_Set_delete: "set (Set_delete x s) = set s - {x}"
  by (simp add: Set_delete_def)

lemma distinct_Set_delete: "distinct s \<Longrightarrow> distinct (Set_delete x s)"
  by (simp add: Set_delete_def distinct_removeAll)

lemma set_delete_each: "set (delete_each ds s) = set s - set ds"
  by (induction ds arbitrary: s) (auto simp: set_Set_delete)

lemma distinct_delete_each: "distinct s \<Longrightarrow> distinct (delete_each ds s)"
  by (induction ds arbitrary: s) (auto simp: distinct_Set_delete)

subsection \<open>The registry under driver calls\<close>

lemma keys_led_call_on: "map fst (led_call_on path c leds) = map fst leds"
  by (induction leds) (auto simp: led_call_on_def)

lemma map_of_led_call_on:
  "map_of (led_call_on path c leds) q =
     (if q = path then map_option (\<lambda>led. led @ [c]) (map_of leds q) else map_of leds q)"
  by (induction leds) (auto simp: led_call_on_def)

lemma setLeds_step:
  "setLeds (path # ps) ca leds =
     setLeds ps ca (if map_of leds path = None then leds else led_call_on path (call_of ca) leds)"
  by (cases ca) (auto simp: call_of_def split: option.splits)

lemma keys_setLeds: "map fst (setLeds ps ca leds) = map fst leds"
  by (induction ps arbitrary: leds) (auto simp: setLeds_step keys_led_call_on simp del: setLeds.simps(2))

lemma registered_keys: "registered leds q = (q \<in> set (map fst leds))"
  by (simp add: registered_def map_of_eq_None_iff)

lemma registered_led_call_on: "registered (led_call_on path c leds) q = registered leds q"
  by (simp add: registered_keys keys_led_call_on)

lemma registered_setLeds: "registered (setLeds ps ca leds) q = registered leds q"
  by (simp add: registered_keys keys_setLeds)

lemma shown_led_call_on:
  "shown (led_call_on path c leds) q =
     (if q = path \<and> registered leds q then Some c else shown leds q)"
  by (auto simp: shown_def registered_def map_of_led_call_on split: option.splits)

lemma shown_unregistered: "\<not> registered leds q \<Longrightarrow> shown leds q = None"
  by (simp add: shown_def registered_def)

lemma shown_setLeds:
  "shown (setLeds ps ca leds) q =
     (if q \<in> set ps \<and> registered leds q then Some (call_of ca) else shown leds q)"
proof (induction ps arbitrary: leds)
  case Nil
  then show ?case by simp
next
  case (Cons p ps)
  show ?case
    unfolding setLeds_step
    by (simp add: Cons.IH registered_led_call_on shown_led_call_on del: setLeds.simps(2))
       (auto simp: registered_def)
qed

subsection \<open>The sets and the calls of updateLeds\<close>

lemma initial_sets_simps:
  "source (initial_sets leds a s f) = []"
  "set (unplugged (initial_sets leds a s f)) = set (map fst leds) - (set a - set s)"
  "set (plugged (initial_sets leds a s f)) = set a - set s"
  "set (selectedOk (initial_sets leds a s f)) = set s - set f"
  "set (selectedFailed (initial_sets leds a s f)) = set f"
  by (simp_all add: initial_sets_def Let_def set_delete_each set_new_Set)

lemma initial_sets_distinct:
  "distinct (unplugged (initial_sets leds a s f))"
  "distinct (plugged (initial_sets leds a s f))"
  "distinct (selectedOk (initial_sets leds a s f))"
  "distinct (selectedFailed (initial_sets leds a s f))"
  by (simp_all add: initial_sets_def Let_def distinct_delete_each distinct_new_Set)

lemma initial_sets_keys:
  "map fst leds = map fst leds' \<Longrightarrow> initial_sets leds a s f = initial_sets leds' a s f"
  by (simp add: initial_sets_def)

lemma fst_handle_source_keys:
  "fst (handle_source src cs leds) = fst (handle_source src cs leds')"
  by (simp add: handle_source_def split: option.splits)

lemma keys_handle_source: "map fst (snd (handle_source src cs leds)) = map fst leds"
  by (simp add: handle_source_def keys_setLeds split: option.splits)

lemma handle_source_sets:
  "set (selectedOk (fst (handle_source src cs leds))) = set (selectedOk cs)"
  "set (selectedFailed (fst (handle_source src cs leds))) = set (selectedFailed cs)"
  "selectedOk (fst (handle_source src cs leds)) = selectedOk cs"
  "selectedFailed (fst (handle_source src cs leds)) = selectedFailed cs"
  by (simp_all add: handle_source_def split: option.splits)

lemma handle_source_unplugged:
  "set (unplugged (fst (handle_source src cs leds))) =
     (case src of None \<Rightarrow> set (unplugged cs) | Some p \<Rightarrow> set (unplugged cs) - {p})"
  by (auto simp: handle_source_def Set_has_def set_Set_delete split: option.splits)

lemma handle_source_plugged:
  "set (plugged (fst (handle_source src cs leds))) =
     (case src of None \<Rightarrow> set (plugged cs)
      | Some p \<Rightarrow> if p \<in> set (unplugged cs) then set (plugged cs) else set (plugged cs) - {p})"
  by (auto simp: handle_source_def Set_has_def set_Set_delete split: option.splits)

lemma handle_source_source:
  "set (source (fst (handle_source src cs leds))) =
     (case src of None \<Rightarrow> set (source cs)
      | Some p \<Rightarrow> if p \<in> set (unplugged cs) \<or> p \<in> set (plugged cs) then {p} else set (source cs))"
  by (auto simp: handle_source_def Set_has_def new_Set_single split: option.splits)

lemma shown_handle_source:
  "shown (snd (handle_source src cs leds)) q =
     (case src of None \<Rightarrow> shown leds q
      | Some p \<Rightarrow>
          if q = p \<and> registered leds q \<and> p \<in> set (unplugged cs) then Some (setAnimation breatheBlue)
          else if q = p \<and> registered leds q \<and> p \<in> set (plugged cs) then Some (setStaticColor blue)
          else shown leds q)"
  by (auto simp: handle_source_def Set_has_def new_Set_single shown_setLeds call_of_def
           simp del: setLeds.simps split: option.splits)

lemma apply_step_table:
  "apply_step st cs leds =
     setLeds (selectedFailed cs) (step_table st SelectedFailed)
       (setLeds (selectedOk cs) (step_table st SelectedOk)
         (setLeds (plugged cs) (step_table st Plugged)
           (setLeds (unplugged cs) (step_table st Unplugged) leds)))"
  by (cases st) (simp_all add: apply_step_def)

lemma shown_apply_step:
  "shown (apply_step st cs leds) q =
     (if \<not> registered leds q then None
      else if q \<in> set (selectedFailed cs) then Some (call_of (step_table st SelectedFailed))
      else if q \<in> set (selectedOk cs) then Some (call_of (step_table st SelectedOk))
      else if q \<in> set (plugged cs) then Some (call_of (step_table st Plugged))
      else if q \<in> set (unplugged cs) then Some (call_of (step_table st Unplugged))
      else shown leds q)"
  by (simp add: apply_step_table shown_setLeds registered_setLeds shown_unregistered
           del: step_table.simps)

lemma keys_apply_step: "map fst (apply_step st cs leds) = map fst leds"
  by (simp add: apply_step_table keys_setLeds)

lemma updateLeds_eq:
  "updateLeds st src a s f leds =
     apply_step st (updateLeds_sets src a s f leds)
       (snd (handle_source src (initial_sets leds a s f) leds))"
  by (simp add: updateLeds_def updateLeds_sets_def split: prod.splits)

lemma keys_updateLeds: "map fst (updateLeds st src a s f leds) = map fst leds"
  by (simp add: updateLeds_eq keys_apply_step keys_handle_source)

lemma updateLeds_sets_simps:
  "set (selectedFailed (updateLeds_sets src a s f leds)) = set f"
  "set (selectedOk (updateLeds_sets src a s f leds)) = set s - set f"
  "set (plugged (updateLeds_sets src a s f leds)) =
     (case src of None \<Rightarrow> set a - set s
      | Some p \<Rightarrow> set a - set s - {p})"
  "set (unplugged (updateLeds_sets src a s f leds)) =
     (case src of None \<Rightarrow> set (map fst leds) - (set a - set s)
      | Some p \<Rightarrow> set (map fst leds) - (set a - set s) - {p})"
  by (auto simp: updateLeds_sets_def handle_source_sets handle_source_plugged
        handle_source_unplugged initial_sets_simps registered_keys split: option.splits)

lemma updateLeds_sets_source:
  "set (source (updateLeds_sets src a s f leds)) =
     (case src of None \<Rightarrow> {}
      | Some p \<Rightarrow> if registered leds p \<or> (p \<in> set a \<and> p \<notin> set s) then {p} else {})"
  by (auto simp: updateLeds_sets_def handle_source_source initial_sets_simps registered_keys
           split: option.splits)

lemma updateLeds_sets_distinct:
  "distinct (unplugged (updateLeds_sets src a s f leds))"
  "distinct (plugged (updateLeds_sets src a s f leds))"
  "distinct (selectedOk (updateLeds_sets src a s f leds))"
  "distinct (selectedFailed (updateLeds_sets src a s f leds))"
  by (simp_all add: updateLeds_sets_def handle_source_def initial_sets_distinct
        distinct_Set_delete split: option.splits)

lemma map_of_setLeds:
  "distinct ps \<Longrightarrow>
   map_of (setLeds ps ca leds) q =
     (if q \<in> set ps then map_option (\<lambda>led. led @ [call_of ca]) (map_of leds q)
      else map_of leds q)"
proof (induction ps arbitrary: leds)
  case Nil
  then show ?case by simp
next
  case (Cons p ps)
  then have IH: "\<And>leds'. map_of (setLeds ps ca leds') q =
     (if q \<in> set ps then map_option (\<lambda>led. led @ [call_of ca]) (map_of leds' q)
      else map_of leds' q)"
    by simp
  from Cons.prems have "p \<notin> set ps" by simp
  then show ?case
    unfolding setLeds_step
    by (auto simp: IH map_of_led_call_on simp del: setLeds.simps(2))
qed

lemma map_of_handle_source:
  "map_of (snd (handle_source src (initial_sets leds a s f) leds)) q =
     map_option (\<lambda>led. led @
        (if q \<in> set (source (updateLeds_sets src a s f leds)) then [source_call a s q] else []))
       (map_of leds q)"
proof (cases src)
  case None
  then show ?thesis
    by (simp add: updateLeds_sets_source handle_source_def option.map_ident)
next
  case (Some p)
  show ?thesis
  proof (cases "q = p")
    case False
    then show ?thesis
      using Some
      by (simp add: updateLeds_sets_source handle_source_def Set_has_def new_Set_single
            map_of_setLeds option.map_ident del: setLeds.simps)
  next
    case True
    show ?thesis
    proof (cases "registered leds p")
      case False
      then have "map_of leds p = None" by (simp add: registered_def)
      then show ?thesis
        using Some True
        by (simp add: handle_source_def Set_has_def new_Set_single map_of_setLeds
              del: setLeds.simps)
    next
      case reg: True
      then show ?thesis
        using Some True
        by (auto simp: updateLeds_sets_source handle_source_def Set_has_def new_Set_single
              map_of_setLeds initial_sets_simps registered_keys source_call_def call_of_def
              simp del: setLeds.simps)
    qed
  qed
qed

lemma map_of_apply_step:
  assumes "distinct (unplugged cs)" "distinct (plugged cs)"
    "distinct (selectedOk cs)" "distinct (selectedFailed cs)"
  shows "map_of (apply_step st cs leds) q =
     map_option (\<lambda>led. led @
        (if q \<in> set (unplugged cs) then [call_of (step_table st Unplugged)] else []) @
        (if q \<in> set (plugged cs) then [call_of (step_table st Plugged)] else []) @
        (if q \<in> set (selectedOk cs) then [call_of (step_table st SelectedOk)] else []) @
        (if q \<in> set (selectedFailed cs) then [call_of (step_table st SelectedFailed)] else []))
       (map_of leds q)"
  using assms
  by (simp add: apply_step_table map_of_setLeds option.map_comp comp_def option.map_ident
           del: step_table.simps)

lemma map_of_updateLeds:
  "map_of (updateLeds st src a s f leds) q =
     map_option (\<lambda>led. led @ calls_in_update st (updateLeds_sets src a s f leds) a s q)
       (map_of leds q)"
  unfolding updateLeds_eq
  by (simp add: map_of_apply_step updateLeds_sets_distinct map_of_handle_source
        option.map_comp comp_def calls_in_update_def del: step_table.simps)

subsection \<open>What an LED displays after updateLeds\<close>

lemma shown_updateLeds:
  assumes "registered leds q"
  shows "shown (updateLeds st src a s f leds) q =
     Some (if q \<in> set f then call_of (step_table st SelectedFailed)
           else if q \<in> set s then call_of (step_table st SelectedOk)
           else if src = Some q then source_call a s q
           else setStaticColor black)"
proof -
  have reg: "registered (snd (handle_source src (initial_sets leds a s f) leds)) q"
    using assms by (simp add: registered_keys keys_handle_source)
  have keys: "q \<in> set (map fst leds)"
    using assms by (simp add: registered_keys)
  show ?thesis
    unfolding updateLeds_eq shown_apply_step
    using reg keys assms
    by (cases src)
       (auto simp: updateLeds_sets_simps shown_handle_source initial_sets_simps
          source_call_def call_of_def)
qed

lemma shown_updateLeds_unregistered:
  "\<not> registered leds q \<Longrightarrow> shown (updateLeds st src a s f leds) q = None"
  by (simp add: shown_unregistered registered_keys keys_updateLeds)

section \<open>The claims\<close>

subsection \<open>Failed drives\<close>

text \<open>
  Claim C3.  A drive path that is both in \<open>selectedDrives\<close> and in \<open>failedDrives\<close> is
  in the set \<open>selectedFailed\<close> and not in \<open>selectedOk\<close>.  At the step \<open>flashing\<close>
  its LED, if it has one, ends with the static colour red, and never with the animation
  \<open>blinkGreen\<close>.
\<close>

theorem failed_overrides_selected:
  assumes "p \<in> set selectedDrives" and "p \<in> set failedDrives"
  shows "p \<in> set (selectedFailed (updateLeds_sets src available selectedDrives failedDrives leds))
       \<and> p \<notin> set (selectedOk (updateLeds_sets src available selectedDrives failedDrives leds))
       \<and> (registered leds p \<longrightarrow>
            shown (updateLeds step_flashing src available selectedDrives failedDrives leds) p
              = Some (setStaticColor red))
       \<and> shown (updateLeds step_flashing src available selectedDrives failedDrives leds) p
              \<noteq> Some (setAnimation blinkGreen)"
proof -
  have "shown (updateLeds step_flashing src available selectedDrives failedDrives leds) p
          \<noteq> Some (setAnimation blinkGreen)"
  proof (cases "registered leds p")
    case True
    then show ?thesis using assms by (simp add: shown_updateLeds call_of_def)
  next
    case False
    then show ?thesis by (simp add: shown_updateLeds_unregistered)
  qed
  then show ?thesis
    using assms by (simp add: updateLeds_sets_simps shown_updateLeds call_of_def)
qed

theorem failed_overrides_selected_witness:
  "''/dev/disk/by-path/B'' \<in> set [''/dev/disk/by-path/B'']
   \<and> registered [(''/dev/disk/by-path/B'', [])] ''/dev/disk/by-path/B''
   \<and> shown (updateLeds step_flashing None [] [''/dev/disk/by-path/B'']
         [''/dev/disk/by-path/B''] [(''/dev/disk/by-path/B'', [])]) ''/dev/disk/by-path/B''
       = Some (setStaticColor red)"
  using failed_overrides_selected [of "''/dev/disk/by-path/B''" "[''/dev/disk/by-path/B'']"
      "[''/dev/disk/by-path/B'']" None "[]" "[(''/dev/disk/by-path/B'', [])]"]
  by (simp add: registered_def)

subsection \<open>The sets of a registered path\<close>

lemma occurrences_Nil: "occurrences p [] = 0"
  by (simp add: occurrences_def)

lemma occurrences_Cons:
  "occurrences p (x # xs) = (if p \<in> set x then 1 else 0) + occurrences p xs"
  by (simp add: occurrences_def)

text \<open>
  Claim C1 says that every registered path lies in exactly one of the five sets.  With
  one registered path that is available and selected, the path is in \<open>unplugged\<close> and
  in \<open>selectedOk\<close>: the second loop removes from \<open>unplugged\<close> only what is left in
  \<open>plugged\<close> after the first loop took the selected paths out of it.
\<close>

theorem partition_counterexample:
  "registered [(''/dev/disk/by-path/A'', [])] ''/dev/disk/by-path/A''
   \<and> unplugged (updateLeds_sets None [''/dev/disk/by-path/A''] [''/dev/disk/by-path/A''] []
        [(''/dev/disk/by-path/A'', [])]) = [''/dev/disk/by-path/A'']
   \<and> selectedOk (updateLeds_sets None [''/dev/disk/by-path/A''] [''/dev/disk/by-path/A''] []
        [(''/dev/disk/by-path/A'', [])]) = [''/dev/disk/by-path/A'']
   \<and> occurrences ''/dev/disk/by-path/A''
        (five_sets (updateLeds_sets None [''/dev/disk/by-path/A''] [''/dev/disk/by-path/A''] []
           [(''/dev/disk/by-path/A'', [])])) = 2"
  by (simp add: registered_def updateLeds_sets_def handle_source_def initial_sets_def
        new_Set_def Set_add_def Set_delete_def five_sets_def occurrences_def)

text \<open>
  Claim C1, amended.  Every registered path lies in exactly one of the three sets
  \<open>source\<close>, \<open>unplugged\<close> and \<open>plugged\<close>, so that none is omitted.  The sets
  \<open>selectedOk\<close> and \<open>selectedFailed\<close> are disjoint, and a registered path lies in one
  of them, in addition, exactly when it is in \<open>selectedDrives\<close> or in
  \<open>failedDrives\<close>.
\<close>

theorem registered_path_categories:
  assumes "registered leds p"
  shows "occurrences p
           [source (updateLeds_sets src available selectedDrives failedDrives leds),
            unplugged (updateLeds_sets src available selectedDrives failedDrives leds),
            plugged (updateLeds_sets src available selectedDrives failedDrives leds)] = 1
       \<and> occurrences p
           [selectedOk (updateLeds_sets src available selectedDrives failedDrives leds),
            selectedFailed (updateLeds_sets src available selectedDrives failedDrives leds)]
          = (if p \<in> set selectedDrives \<or> p \<in> set failedDrives then 1 else 0)
       \<and> occurrences p
           (five_sets (updateLeds_sets src available selectedDrives failedDrives leds))
          = (if p \<in> set selectedDrives \<or> p \<in> set failedDrives then 2 else 1)"
proof -
  let ?cs = "updateLeds_sets src available selectedDrives failedDrives leds"
  have keys: "p \<in> set (map fst leds)"
    using assms by (simp add: registered_keys)
  have three: "occurrences p [source ?cs, unplugged ?cs, plugged ?cs] = 1"
    using assms keys
    by (cases src)
       (auto simp: occurrences_Cons occurrences_Nil updateLeds_sets_simps
          updateLeds_sets_source)
  have two: "occurrences p [selectedOk ?cs, selectedFailed ?cs]
          = (if p \<in> set selectedDrives \<or> p \<in> set failedDrives then 1 else 0)"
    by (auto simp: occurrences_Cons occurrences_Nil updateLeds_sets_simps)
  have "occurrences p (five_sets ?cs) =
          occurrences p [source ?cs, unplugged ?cs, plugged ?cs]
          + occurrences p [selectedOk ?cs, selectedFailed ?cs]"
    by (simp add: five_sets_def occurrences_def)
  with three two show ?thesis by simp
qed

theorem registered_path_categories_witness:
  "registered [(''/dev/disk/by-path/A'', []), (''/dev/disk/by-path/B'', [])] ''/dev/disk/by-path/B''
   \<and> occurrences ''/dev/disk/by-path/B''
        (five_sets (updateLeds_sets (Some ''/dev/disk/by-path/A'')
           [''/dev/disk/by-path/A'', ''/dev/disk/by-path/B''] [] []
           [(''/dev/disk/by-path/A'', []), (''/dev/disk/by-path/B'', [])])) = 1"
  using registered_path_categories [of "[(''/dev/disk/by-path/A'', []), (''/dev/disk/by-path/B'', [])]"
      "''/dev/disk/by-path/B''" "Some ''/dev/disk/by-path/A''"
      "[''/dev/disk/by-path/A'', ''/dev/disk/by-path/B'']" "[]" "[]"]
  by (simp add: registered_def)

subsection \<open>The source slot\<close>

text \<open>
  Claim C2 says that a defined source path is never in \<open>selectedOk\<close> or
  \<open>selectedFailed\<close> and that its LED keeps the source indication.  With one registered
  path that is the source, available and selected, the path stays in \<open>selectedOk\<close>; its
  LED receives the breathing animation (the path is still in \<open>unplugged\<close>, although it
  is available) and then the white of the selected drives, which it displays.
\<close>

theorem source_counterexample:
  "selectedOk (updateLeds_sets (Some ''/dev/disk/by-path/A'') [''/dev/disk/by-path/A'']
       [''/dev/disk/by-path/A''] [] [(''/dev/disk/by-path/A'', [])]) = [''/dev/disk/by-path/A'']
   \<and> updateLeds step_main (Some ''/dev/disk/by-path/A'') [''/dev/disk/by-path/A'']
       [''/dev/disk/by-path/A''] [] [(''/dev/disk/by-path/A'', [])]
     = [(''/dev/disk/by-path/A'', [setAnimation breatheBlue, setStaticColor white])]
   \<and> shown (updateLeds step_main (Some ''/dev/disk/by-path/A'') [''/dev/disk/by-path/A'']
       [''/dev/disk/by-path/A''] [] [(''/dev/disk/by-path/A'', [])]) ''/dev/disk/by-path/A''
     = Some (setStaticColor white)"
  by (simp add: updateLeds_def updateLeds_sets_def handle_source_def initial_sets_def
        new_Set_def Set_add_def Set_delete_def Set_has_def apply_step_def led_call_on_def Let_def
        shown_def)

text \<open>
  Claim C2, amended.  A defined source path is never left in \<open>unplugged\<close> or
  \<open>plugged\<close>.  If it is neither in \<open>selectedDrives\<close> nor in \<open>failedDrives\<close>, it is in
  none of the four sets of the step table, and its LED, if it has one, ends with the
  source indication at every step: solid blue if the path is in \<open>availableDrives\<close>,
  the breathing animation if it is not.
\<close>

theorem source_indication:
  assumes "src = Some p"
  shows "p \<notin> set (unplugged (updateLeds_sets src available selectedDrives failedDrives leds))
       \<and> p \<notin> set (plugged (updateLeds_sets src available selectedDrives failedDrives leds))
       \<and> (p \<notin> set selectedDrives \<and> p \<notin> set failedDrives \<longrightarrow>
            p \<notin> set (selectedOk (updateLeds_sets src available selectedDrives failedDrives leds))
          \<and> p \<notin> set (selectedFailed (updateLeds_sets src available selectedDrives failedDrives leds))
          \<and> (registered leds p \<longrightarrow>
                shown (updateLeds st src available selectedDrives failedDrives leds) p
                  = Some (if p \<in> set available then setStaticColor blue
                          else setAnimation breatheBlue)))"
  using assms
  by (simp add: updateLeds_sets_simps shown_updateLeds source_call_def)

theorem source_indication_witness:
  "shown (updateLeds step_flashing (Some ''/dev/disk/by-path/A'') [''/dev/disk/by-path/A''] [] []
       [(''/dev/disk/by-path/A'', [])]) ''/dev/disk/by-path/A'' = Some (setStaticColor blue)
   \<and> shown (updateLeds step_main (Some ''/dev/disk/by-path/A'') [] [] []
       [(''/dev/disk/by-path/A'', [])]) ''/dev/disk/by-path/A'' = Some (setAnimation breatheBlue)"
  using source_indication [of "Some ''/dev/disk/by-path/A''" "''/dev/disk/by-path/A''"
          "[''/dev/disk/by-path/A'']" "[]" "[]" "[(''/dev/disk/by-path/A'', [])]" step_flashing]
        source_indication [of "Some ''/dev/disk/by-path/A''" "''/dev/disk/by-path/A''"
          "[]" "[]" "[]" "[(''/dev/disk/by-path/A'', [])]" step_main]
  by (simp add: registered_def)

subsection \<open>Paths in several sets\<close>

lemma calls_in_update_nonempty:
  assumes "registered leds p"
  shows "calls_in_update st (updateLeds_sets src a s f leds) a s p \<noteq> []"
proof -
  have "p \<in> set (map fst leds)"
    using assms by (simp add: registered_keys)
  then show ?thesis
    using assms
    by (cases src)
       (auto simp: calls_in_update_def updateLeds_sets_simps updateLeds_sets_source)
qed

lemma shown_last_call:
  assumes "registered leds p"
  shows "shown (updateLeds st src a s f leds) p =
           Some (last (calls_in_update st (updateLeds_sets src a s f leds) a s p))"
proof -
  from assms obtain led where led: "map_of leds p = Some led"
    by (auto simp: registered_def)
  show ?thesis
    using calls_in_update_nonempty [OF assms, of st src a s f]
    by (simp add: shown_def map_of_updateLeds led)
qed

text \<open>
  Claim C10 says that a path in \<open>failedDrives\<close> and \<open>availableDrives\<close> that is not in
  \<open>selectedDrives\<close> remains in \<open>plugged\<close>.  If the path is the source path, the source
  branch removes it from \<open>plugged\<close>; its LED receives blue and then the indication of
  the failed drives.
\<close>

theorem failed_plugged_counterexample:
  "''/dev/disk/by-path/A'' \<in> set [''/dev/disk/by-path/A'']
   \<and> plugged (updateLeds_sets (Some ''/dev/disk/by-path/A'') [''/dev/disk/by-path/A''] []
       [''/dev/disk/by-path/A''] [(''/dev/disk/by-path/A'', [])]) = []
   \<and> updateLeds step_flashing (Some ''/dev/disk/by-path/A'') [''/dev/disk/by-path/A''] []
       [''/dev/disk/by-path/A''] [(''/dev/disk/by-path/A'', [])]
     = [(''/dev/disk/by-path/A'', [setStaticColor blue, setStaticColor red])]"
  by (simp add: updateLeds_def updateLeds_sets_def handle_source_def initial_sets_def
        new_Set_def Set_add_def Set_delete_def Set_has_def apply_step_def led_call_on_def Let_def)

text \<open>
  Claim C10, amended.  In one run of \<open>updateLeds\<close> the LED of a registered path
  receives one call for every set that holds the path, in the order source,
  \<open>unplugged\<close>, \<open>plugged\<close>, \<open>selectedOk\<close>, \<open>selectedFailed\<close>, and it displays the last
  of them.  A path that is in \<open>failedDrives\<close> and \<open>availableDrives\<close>, not in
  \<open>selectedDrives\<close> and not the source path remains in \<open>plugged\<close> and in
  \<open>selectedFailed\<close>: its LED receives black and then the indication of the failed
  drives, which is red at the steps \<open>flashing\<close>, \<open>verifying\<close> and \<open>finish\<close>.
\<close>

theorem last_set_wins:
  assumes "registered leds p"
  shows "(\<exists>led. map_of leds p = Some led
            \<and> map_of (updateLeds st src available selectedDrives failedDrives leds) p
                = Some (led @ calls_in_update st
                    (updateLeds_sets src available selectedDrives failedDrives leds)
                    available selectedDrives p))
       \<and> shown (updateLeds st src available selectedDrives failedDrives leds) p
           = Some (last (calls_in_update st
                (updateLeds_sets src available selectedDrives failedDrives leds)
                available selectedDrives p))
       \<and> (p \<in> set failedDrives \<and> p \<in> set available \<and> p \<notin> set selectedDrives \<and> src \<noteq> Some p \<longrightarrow>
            p \<in> set (plugged (updateLeds_sets src available selectedDrives failedDrives leds))
          \<and> p \<in> set (selectedFailed (updateLeds_sets src available selectedDrives failedDrives leds))
          \<and> calls_in_update st
                (updateLeds_sets src available selectedDrives failedDrives leds)
                available selectedDrives p
              = [setStaticColor black, call_of (step_table st SelectedFailed)]
          \<and> (st \<noteq> step_main \<longrightarrow>
                shown (updateLeds st src available selectedDrives failedDrives leds) p
                  = Some (setStaticColor red)))"
proof -
  from assms obtain led where led: "map_of leds p = Some led"
    by (auto simp: registered_def)
  have hist: "\<exists>led. map_of leds p = Some led
            \<and> map_of (updateLeds st src available selectedDrives failedDrives leds) p
                = Some (led @ calls_in_update st
                    (updateLeds_sets src available selectedDrives failedDrives leds)
                    available selectedDrives p)"
    by (simp add: map_of_updateLeds led)
  have red: "st \<noteq> step_main \<Longrightarrow> call_of (step_table st SelectedFailed) = setStaticColor red"
    by (cases st) (simp_all add: call_of_def)
  have part: "p \<in> set failedDrives \<and> p \<in> set available \<and> p \<notin> set selectedDrives \<and> src \<noteq> Some p \<longrightarrow>
            p \<in> set (plugged (updateLeds_sets src available selectedDrives failedDrives leds))
          \<and> p \<in> set (selectedFailed (updateLeds_sets src available selectedDrives failedDrives leds))
          \<and> calls_in_update st
                (updateLeds_sets src available selectedDrives failedDrives leds)
                available selectedDrives p
              = [setStaticColor black, call_of (step_table st SelectedFailed)]
          \<and> (st \<noteq> step_main \<longrightarrow>
                shown (updateLeds st src available selectedDrives failedDrives leds) p
                  = Some (setStaticColor red))"
    using assms red
    by (cases src)
       (auto simp: calls_in_update_def updateLeds_sets_simps updateLeds_sets_source
          shown_updateLeds call_of_def simp del: step_table.simps(3-10))
  from hist shown_last_call [OF assms] part show ?thesis
    by blast
qed

theorem last_set_wins_witness:
  "registered [(''/dev/disk/by-path/A'', [])] ''/dev/disk/by-path/A''
   \<and> ''/dev/disk/by-path/A'' \<in> set (plugged (updateLeds_sets None [''/dev/disk/by-path/A''] []
        [''/dev/disk/by-path/A''] [(''/dev/disk/by-path/A'', [])]))
   \<and> ''/dev/disk/by-path/A'' \<in> set (selectedFailed (updateLeds_sets None [''/dev/disk/by-path/A''] []
        [''/dev/disk/by-path/A''] [(''/dev/disk/by-path/A'', [])]))
   \<and> calls_in_update step_verifying (updateLeds_sets None [''/dev/disk/by-path/A''] []
        [''/dev/disk/by-path/A''] [(''/dev/disk/by-path/A'', [])]) [''/dev/disk/by-path/A''] []
        ''/dev/disk/by-path/A'' = [setStaticColor black, setStaticColor red]
   \<and> shown (updateLeds step_verifying None [''/dev/disk/by-path/A''] []
        [''/dev/disk/by-path/A''] [(''/dev/disk/by-path/A'', [])]) ''/dev/disk/by-path/A''
       = Some (setStaticColor red)"
  using last_set_wins [of "[(''/dev/disk/by-path/A'', [])]" "''/dev/disk/by-path/A''"
      step_verifying None "[''/dev/disk/by-path/A'']" "[]" "[''/dev/disk/by-path/A'']"]
  by (simp add: registered_def call_of_def)

subsection \<open>The step table\<close>

text \<open>
  Claim C5.  In one run of \<open>updateLeds\<close> the LED of a path receives, after the call of
  the source branch if the path is the source, black if the path is in \<open>unplugged\<close>,
  black if it is in \<open>plugged\<close>, then if it is in \<open>selectedOk\<close> white at the step
  \<open>main\<close>, \<open>blinkGreen\<close> at \<open>flashing\<close>, \<open>blinkPurple\<close> at \<open>verifying\<close> and green
  at \<open>finish\<close>, then if it is in \<open>selectedFailed\<close> white at \<open>main\<close> and red at the
  three other steps.  A registered path that is selected and has not failed ends with
  the indication of \<open>selectedOk\<close>, one that has failed with the indication of
  \<open>selectedFailed\<close>.  At the step \<open>main\<close>, without source and with empty lists, every
  registered LED ends with black.
\<close>

theorem step_table_applied:
  "map_of (updateLeds st src available selectedDrives failedDrives leds) p =
     map_option (\<lambda>led. led @
        (if p \<in> set (source (updateLeds_sets src available selectedDrives failedDrives leds))
         then [source_call available selectedDrives p] else []) @
        (if p \<in> set (unplugged (updateLeds_sets src available selectedDrives failedDrives leds))
         then [setStaticColor black] else []) @
        (if p \<in> set (plugged (updateLeds_sets src available selectedDrives failedDrives leds))
         then [setStaticColor black] else []) @
        (if p \<in> set (selectedOk (updateLeds_sets src available selectedDrives failedDrives leds))
         then [case st of
                 step_main \<Rightarrow> setStaticColor white
               | step_flashing \<Rightarrow> setAnimation blinkGreen
               | step_verifying \<Rightarrow> setAnimation blinkPurple
               | step_finish \<Rightarrow> setStaticColor green] else []) @
        (if p \<in> set (selectedFailed (updateLeds_sets src available selectedDrives failedDrives leds))
         then [case st of
                 step_main \<Rightarrow> setStaticColor white
               | step_flashing \<Rightarrow> setStaticColor red
               | step_verifying \<Rightarrow> setStaticColor red
               | step_finish \<Rightarrow> setStaticColor red] else []))
       (map_of leds p)
   \<and> (registered leds p \<and> p \<in> set selectedDrives \<and> p \<notin> set failedDrives \<longrightarrow>
        shown (updateLeds st src available selectedDrives failedDrives leds) p =
          Some (case st of
                  step_main \<Rightarrow> setStaticColor white
                | step_flashing \<Rightarrow> setAnimation blinkGreen
                | step_verifying \<Rightarrow> setAnimation blinkPurple
                | step_finish \<Rightarrow> setStaticColor green))
   \<and> (registered leds p \<and> p \<in> set failedDrives \<longrightarrow>
        shown (updateLeds st src available selectedDrives failedDrives leds) p =
          Some (case st of
                  step_main \<Rightarrow> setStaticColor white
                | step_flashing \<Rightarrow> setStaticColor red
                | step_verifying \<Rightarrow> setStaticColor red
                | step_finish \<Rightarrow> setStaticColor red))
   \<and> (registered leds p \<longrightarrow>
        shown (updateLeds step_main None [] [] [] leds) p = Some (setStaticColor black))"
proof -
  have ok: "call_of (step_table st SelectedOk) =
      (case st of
         step_main \<Rightarrow> setStaticColor white
       | step_flashing \<Rightarrow> setAnimation blinkGreen
       | step_verifying \<Rightarrow> setAnimation blinkPurple
       | step_finish \<Rightarrow> setStaticColor green)"
    by (cases st) (simp_all add: call_of_def)
  have failed: "call_of (step_table st SelectedFailed) =
      (case st of
         step_main \<Rightarrow> setStaticColor white
       | step_flashing \<Rightarrow> setStaticColor red
       | step_verifying \<Rightarrow> setStaticColor red
       | step_finish \<Rightarrow> setStaticColor red)"
    by (cases st) (simp_all add: call_of_def)
  have black: "call_of (step_table st Unplugged) = setStaticColor black"
    "call_of (step_table st Plugged) = setStaticColor black"
    by (simp_all add: call_of_def)
  show ?thesis
    by (simp add: map_of_updateLeds calls_in_update_def shown_updateLeds ok failed black
          del: step_table.simps)
qed

theorem step_table_applied_witness:
  "updateLeds step_flashing None [] [''/dev/disk/by-path/B''] []
       [(''/dev/disk/by-path/A'', []), (''/dev/disk/by-path/B'', [])]
     = [(''/dev/disk/by-path/A'', [setStaticColor black]),
        (''/dev/disk/by-path/B'', [setStaticColor black, setAnimation blinkGreen])]
   \<and> shown (updateLeds step_flashing None [] [''/dev/disk/by-path/B''] []
       [(''/dev/disk/by-path/A'', []), (''/dev/disk/by-path/B'', [])]) ''/dev/disk/by-path/B''
     = Some (setAnimation blinkGreen)
   \<and> shown (updateLeds step_finish None [] [''/dev/disk/by-path/B''] [''/dev/disk/by-path/B'']
       [(''/dev/disk/by-path/A'', []), (''/dev/disk/by-path/B'', [])]) ''/dev/disk/by-path/B''
     = Some (setStaticColor red)
   \<and> shown (updateLeds step_main None [] [] []
       [(''/dev/disk/by-path/A'', []), (''/dev/disk/by-path/B'', [])]) ''/dev/disk/by-path/B''
     = Some (setStaticColor black)"
proof -
  let ?leds = "[(''/dev/disk/by-path/A'', []), (''/dev/disk/by-path/B'', [])] :: leds_map"
  have reg: "registered ?leds ''/dev/disk/by-path/B''"
    by (simp add: registered_def)
  have run: "updateLeds step_flashing None [] [''/dev/disk/by-path/B''] [] ?leds
     = [(''/dev/disk/by-path/A'', [setStaticColor black]),
        (''/dev/disk/by-path/B'', [setStaticColor black, setAnimation blinkGreen])]"
    by (simp add: updateLeds_def handle_source_def initial_sets_def new_Set_def Set_add_def
          Set_delete_def apply_step_def led_call_on_def Let_def)
  note t1 = step_table_applied [of step_flashing None "[]" "[''/dev/disk/by-path/B'']" "[]"
      ?leds "''/dev/disk/by-path/B''", THEN conjunct2]
  note t2 = step_table_applied [of step_finish None "[]" "[''/dev/disk/by-path/B'']"
      "[''/dev/disk/by-path/B'']" ?leds "''/dev/disk/by-path/B''", THEN conjunct2]
  have a: "shown (updateLeds step_flashing None [] [''/dev/disk/by-path/B''] [] ?leds)
      ''/dev/disk/by-path/B'' = Some (setAnimation blinkGreen)"
    using t1 [THEN conjunct1] reg by simp
  have b: "shown (updateLeds step_finish None [] [''/dev/disk/by-path/B'']
      [''/dev/disk/by-path/B''] ?leds) ''/dev/disk/by-path/B'' = Some (setStaticColor red)"
    using t2 [THEN conjunct2, THEN conjunct1] reg by simp
  have c: "shown (updateLeds step_main None [] [] [] ?leds) ''/dev/disk/by-path/B''
      = Some (setStaticColor black)"
    using t1 [THEN conjunct2, THEN conjunct2] reg by simp
  from run a b c show ?thesis
    by (intro conjI)
qed

subsection \<open>Running updateLeds twice\<close>

text \<open>
  Claim C9.  \<open>updateLeds\<close> is a function of its arguments and of the keys of the
  registry.  A second run with the same arguments computes the same five sets as the
  first, makes on every LED the calls of the first run once more, and leaves every LED
  with the indication that it had after the first run.
\<close>

theorem updateLeds_idempotent:
  "updateLeds_sets src available selectedDrives failedDrives
       (updateLeds st src available selectedDrives failedDrives leds)
     = updateLeds_sets src available selectedDrives failedDrives leds
   \<and> map_of (updateLeds st src available selectedDrives failedDrives
       (updateLeds st src available selectedDrives failedDrives leds)) p
     = map_option (\<lambda>led. led
         @ calls_in_update st (updateLeds_sets src available selectedDrives failedDrives leds)
             available selectedDrives p
         @ calls_in_update st (updateLeds_sets src available selectedDrives failedDrives leds)
             available selectedDrives p)
       (map_of leds p)
   \<and> shown (updateLeds st src available selectedDrives failedDrives
       (updateLeds st src available selectedDrives failedDrives leds)) p
     = shown (updateLeds st src available selectedDrives failedDrives leds) p"
proof -
  let ?leds' = "updateLeds st src available selectedDrives failedDrives leds"
  have keys: "map fst ?leds' = map fst leds"
    by (rule keys_updateLeds)
  have sets: "updateLeds_sets src available selectedDrives failedDrives ?leds'
     = updateLeds_sets src available selectedDrives failedDrives leds"
    unfolding updateLeds_sets_def
    using initial_sets_keys [OF keys] fst_handle_source_keys by metis
  have calls: "map_of (updateLeds st src available selectedDrives failedDrives ?leds') p
     = map_option (\<lambda>led. led
         @ calls_in_update st (updateLeds_sets src available selectedDrives failedDrives leds)
             available selectedDrives p
         @ calls_in_update st (updateLeds_sets src available selectedDrives failedDrives leds)
             available selectedDrives p)
       (map_of leds p)"
    by (simp add: map_of_updateLeds [of st src available selectedDrives failedDrives ?leds']
          sets map_of_updateLeds [of st src available selectedDrives failedDrives leds]
          option.map_comp comp_def)
  have "shown (updateLeds st src available selectedDrives failedDrives ?leds') p
     = shown ?leds' p"
  proof (cases "registered leds p")
    case True
    then have "registered ?leds' p"
      by (simp add: registered_keys keys)
    with True show ?thesis
      by (simp add: shown_updateLeds)
  next
    case False
    then have "\<not> registered ?leds' p"
      by (simp add: registered_keys keys)
    with False show ?thesis
      by (simp add: shown_updateLeds_unregistered)
  qed
  with sets calls show ?thesis by simp
qed

theorem updateLeds_idempotent_witness:
  "shown (updateLeds step_finish None [] [''/dev/disk/by-path/C''] []
       (updateLeds step_finish None [] [''/dev/disk/by-path/C''] []
          [(''/dev/disk/by-path/C'', [])])) ''/dev/disk/by-path/C''
     = Some (setStaticColor green)"
proof -
  have "shown (updateLeds step_finish None [] [''/dev/disk/by-path/C''] []
       [(''/dev/disk/by-path/C'', [])]) ''/dev/disk/by-path/C'' = Some (setStaticColor green)"
    by (simp add: updateLeds_def handle_source_def initial_sets_def new_Set_def Set_add_def
          Set_delete_def apply_step_def led_call_on_def Let_def shown_def)
  with updateLeds_idempotent [of None "[]" "[''/dev/disk/by-path/C'']" "[]" step_finish
      "[(''/dev/disk/by-path/C'', [])]" "''/dev/disk/by-path/C''"]
  show ?thesis by simp
qed

subsection \<open>Paths without LED\<close>

lemma setLeds_filter_registered:
  "setLeds ps ca leds = setLeds (filter (registered leds) ps) ca leds"
proof (induction ps arbitrary: leds)
  case Nil
  then show ?case by simp
next
  case (Cons p ps)
  show ?case
  proof (cases "registered leds p")
    case False
    then show ?thesis
      using Cons.IH [of leds] by (simp add: registered_def)
  next
    case True
    let ?leds' = "led_call_on p (call_of ca) leds"
    have same: "registered ?leds' = registered leds"
      by (rule ext) (simp add: registered_led_call_on)
    have mp: "map_of leds p \<noteq> None"
      using True by (simp add: registered_def)
    have "setLeds (p # ps) ca leds = setLeds ps ca ?leds'"
      by (simp only: setLeds_step mp if_False)
    also have "\<dots> = setLeds (filter (registered leds) ps) ca ?leds'"
      using Cons.IH [of ?leds'] by (simp add: same)
    also have "\<dots> = setLeds (p # filter (registered leds) ps) ca leds"
      by (simp only: setLeds_step mp if_False)
    finally show ?thesis
      using True by simp
  qed
qed

text \<open>
  Claim C7.  \<open>setLeds\<close> passes over every path without registered LED: the paths with
  LED alone decide its effect, and a set without any registered path leaves the registry
  as it is.  \<open>updateLeds\<close> returns for all arguments (the model has no failing branch,
  as the code has none), it leaves the keys of the registry as they are, and a path
  without LED has none afterwards.
\<close>

theorem unregistered_paths_skipped:
  "setLeds ps ca leds = setLeds (filter (registered leds) ps) ca leds
   \<and> ((\<forall>path \<in> set ps. \<not> registered leds path) \<longrightarrow> setLeds ps ca leds = leds)
   \<and> map fst (updateLeds st src available selectedDrives failedDrives leds) = map fst leds
   \<and> (\<not> registered leds p \<longrightarrow>
        map_of (updateLeds st src available selectedDrives failedDrives leds) p = None)"
proof -
  have none: "(\<forall>path \<in> set ps. \<not> registered leds path) \<longrightarrow> setLeds ps ca leds = leds"
  proof
    assume "\<forall>path \<in> set ps. \<not> registered leds path"
    then have "filter (registered leds) ps = []"
      by (simp add: filter_empty_conv)
    then show "setLeds ps ca leds = leds"
      using setLeds_filter_registered [of ps ca leds] by simp
  qed
  have "\<not> registered leds p \<longrightarrow>
        map_of (updateLeds st src available selectedDrives failedDrives leds) p = None"
    by (simp add: registered_def map_of_updateLeds)
  with none setLeds_filter_registered [of ps ca leds] keys_updateLeds show ?thesis
    by blast
qed

theorem unregistered_paths_skipped_witness:
  "\<not> registered [(''/dev/disk/by-path/A'', [])] ''/dev/disk/by-path/X''
   \<and> setLeds [''/dev/disk/by-path/X''] (Solid red) [(''/dev/disk/by-path/A'', [])]
       = [(''/dev/disk/by-path/A'', [])]
   \<and> map_of (updateLeds step_flashing (Some ''/dev/disk/by-path/X'') [''/dev/disk/by-path/X'']
        [''/dev/disk/by-path/X''] [''/dev/disk/by-path/X''] [(''/dev/disk/by-path/A'', [])])
        ''/dev/disk/by-path/X'' = None"
proof -
  have reg: "\<not> registered [(''/dev/disk/by-path/A'', [])] ''/dev/disk/by-path/X''"
    by (simp add: registered_def)
  note t = unregistered_paths_skipped [of "[''/dev/disk/by-path/X'']" "Solid red"
      "[(''/dev/disk/by-path/A'', [])]" step_flashing "Some ''/dev/disk/by-path/X''"
      "[''/dev/disk/by-path/X'']" "[''/dev/disk/by-path/X'']" "[''/dev/disk/by-path/X'']"
      "''/dev/disk/by-path/X''"]
  have a: "setLeds [''/dev/disk/by-path/X''] (Solid red) [(''/dev/disk/by-path/A'', [])]
       = [(''/dev/disk/by-path/A'', [])]"
    using t [THEN conjunct2, THEN conjunct1] reg by simp
  have b: "map_of (updateLeds step_flashing (Some ''/dev/disk/by-path/X'') [''/dev/disk/by-path/X'']
        [''/dev/disk/by-path/X''] [''/dev/disk/by-path/X''] [(''/dev/disk/by-path/A'', [])])
        ''/dev/disk/by-path/X'' = None"
    using t [THEN conjunct2, THEN conjunct2, THEN conjunct2] reg by simp
  from reg a b show ?thesis by (intro conjI)
qed

subsection \<open>The observer\<close>

text \<open>
  Claim C4.  The observer derives the step \<open>flashing\<close> when \<open>isFlashing\<close> is set and
  \<open>flashState.flashing\<close> is greater than 0, \<open>verifying\<close> when \<open>isFlashing\<close> is set and
  the count is not greater than 0, \<open>finish\<close> when \<open>isFlashing\<close> is not set and
  \<open>lastAverageFlashingSpeed\<close> is not null, and \<open>main\<close> otherwise; this step is the
  one that it hands to \<open>updateLeds\<close>.
\<close>

theorem step_derivation:
  "(isFlashing s \<and> flashing (flashState s) > 0 \<longrightarrow> step_of s = step_flashing)
   \<and> (isFlashing s \<and> \<not> flashing (flashState s) > 0 \<longrightarrow> step_of s = step_verifying)
   \<and> (\<not> isFlashing s \<and> lastAverageFlashingSpeed s \<noteq> None \<longrightarrow> step_of s = step_finish)
   \<and> (\<not> isFlashing s \<and> lastAverageFlashingSpeed s = None \<longrightarrow> step_of s = step_main)
   \<and> (\<exists>src available selectedDrives failedDrives.
         observer isSourceDrive s leds =
           updateLeds (step_of s) src available selectedDrives failedDrives leds)"
  by (auto simp: step_of_def observer_def)

theorem step_derivation_witness:
  "step_of (snapshot True 3 None None) = step_flashing
   \<and> step_of (snapshot True 0 None None) = step_verifying
   \<and> step_of (snapshot False 0 (Some 12) None) = step_finish
   \<and> step_of (snapshot False 0 None None) = step_main"
proof -
  have a: "step_of (snapshot True 3 None None) = step_flashing"
    using step_derivation [of "snapshot True 3 None None", THEN conjunct1]
    by (simp add: snapshot_def)
  have b: "step_of (snapshot True 0 None None) = step_verifying"
    using step_derivation [of "snapshot True 0 None None", THEN conjunct2, THEN conjunct1]
    by (simp add: snapshot_def)
  have c: "step_of (snapshot False 0 (Some 12) None) = step_finish"
    using step_derivation [of "snapshot False 0 (Some 12) None",
        THEN conjunct2, THEN conjunct2, THEN conjunct1]
    by (simp add: snapshot_def)
  have d: "step_of (snapshot False 0 None None) = step_main"
    using step_derivation [of "snapshot False 0 None None",
        THEN conjunct2, THEN conjunct2, THEN conjunct2, THEN conjunct1]
    by (simp add: snapshot_def)
  from a b c d show ?thesis by (intro conjI)
qed

lemma getDrivesPaths_Nil: "getDrivesPaths available [] = []"
  by (simp add: getDrivesPaths_def)

lemma selectedFailed_Nil:
  "selectedFailed (updateLeds_sets src a s [] leds) = []"
  by (simp add: updateLeds_sets_def handle_source_sets initial_sets_def new_Set_Nil Let_def)

text \<open>
  Claim C8.  When the snapshot has no \<open>flashResults\<close>, or these have no \<open>results\<close>, or
  these have no \<open>errors\<close>, the observer derives the empty list of failed drives, hands
  the empty list to \<open>updateLeds\<close>, and the set \<open>selectedFailed\<close> is empty.
\<close>

theorem missing_errors_default:
  assumes "Option.bind (Option.bind (flashResults s) results) errors = None"
  shows "failedDrives_of s = []
       \<and> failedDrivesPaths_of s = []
       \<and> selectedFailed (observer_sets isSourceDrive s leds) = []
       \<and> (\<exists>src available selectedDrives.
             observer isSourceDrive s leds =
               updateLeds (step_of s) src available selectedDrives [] leds)"
proof -
  have f: "failedDrives_of s = []"
    using assms by (auto simp: failedDrives_of_def split: option.splits)
  then have p: "failedDrivesPaths_of s = []"
    by (simp add: failedDrivesPaths_of_def getDrivesPaths_Nil)
  then show ?thesis
    using f by (auto simp: observer_sets_def observer_def selectedFailed_Nil)
qed

theorem missing_errors_default_witness:
  "failedDrives_of (snapshot False 0 None None) = []
   \<and> failedDrives_of (snapshot False 0 None (Some \<lparr>results = None\<rparr>)) = []
   \<and> failedDrives_of (snapshot False 0 None (Some \<lparr>results = Some \<lparr>errors = None\<rparr>\<rparr>)) = []
   \<and> selectedFailed (observer_sets (\<lambda>d i. False) (snapshot False 0 None None)
        [(''/dev/disk/by-path/B'', [])]) = []"
proof -
  have a: "failedDrives_of (snapshot False 0 None None) = []"
    using missing_errors_default [of "snapshot False 0 None None", THEN conjunct1]
    by (simp add: snapshot_def)
  have b: "failedDrives_of (snapshot False 0 None (Some \<lparr>results = None\<rparr>)) = []"
    using missing_errors_default [of "snapshot False 0 None (Some \<lparr>results = None\<rparr>)",
        THEN conjunct1]
    by (simp add: snapshot_def)
  have c: "failedDrives_of (snapshot False 0 None (Some \<lparr>results = Some \<lparr>errors = None\<rparr>\<rparr>)) = []"
    using missing_errors_default
      [of "snapshot False 0 None (Some \<lparr>results = Some \<lparr>errors = None\<rparr>\<rparr>)", THEN conjunct1]
    by (simp add: snapshot_def)
  have d: "selectedFailed (observer_sets (\<lambda>d i. False) (snapshot False 0 None None)
        [(''/dev/disk/by-path/B'', [])]) = []"
    using missing_errors_default [of "snapshot False 0 None None" "\<lambda>d i. False"
        "[(''/dev/disk/by-path/B'', [])]", THEN conjunct2, THEN conjunct2, THEN conjunct1]
    by (simp add: snapshot_def)
  from a b c d show ?thesis by (intro conjI)
qed

subsection \<open>The animations\<close>

lemma js_rem_nonneg: "0 \<le> a \<Longrightarrow> js_rem a 2 = a mod 2"
  by (cases "a = 0") (simp_all add: js_rem_def)

lemma floor_elapsed_nonneg: "0 \<le> t \<Longrightarrow> 0 \<le> \<lfloor>t / 1000 :: real\<rfloor>"
  by simp

text \<open>
  Claim C6.  For every elapsed time \<open>t\<close> (a time that has elapsed is not negative),
  \<open>blinkGreen\<close> returns \<open>(0, floor(t/1000) mod 2, 0)\<close> and \<open>blinkPurple\<close> returns
  \<open>(i/2, 0, i)\<close> with \<open>i = floor(t/1000) mod 2\<close>; \<open>breatheBlue\<close> returns
  \<open>(0, 0, (1 + sin(t/1000))/2)\<close>.  So \<open>blinkGreen\<close> gives \<open>(0,0,0)\<close> at 500 and
  \<open>(0,1,0)\<close> at 1500, and \<open>breatheBlue\<close> gives \<open>(0,0,1/2)\<close> at 0.
\<close>

theorem animation_sampling:
  "(0 \<le> t \<longrightarrow>
      blinkGreen t = (0, of_int (\<lfloor>t / 1000\<rfloor> mod 2), 0)
    \<and> blinkPurple t = (of_int (\<lfloor>t / 1000\<rfloor> mod 2) / 2, 0, of_int (\<lfloor>t / 1000\<rfloor> mod 2)))
   \<and> breatheBlue t = (0, 0, (1 + sin (t / 1000)) / 2)
   \<and> blinkGreen 500 = (0, 0, 0)
   \<and> blinkGreen 1500 = (0, 1, 0)
   \<and> breatheBlue 0 = (0, 0, 1 / 2)"
proof -
  have f500: "\<lfloor>500 / 1000 :: real\<rfloor> = 0" by simp
  have f1500: "\<lfloor>1500 / 1000 :: real\<rfloor> = 1"
    by (simp add: floor_eq_iff)
  have g500: "blinkGreen 500 = (0, 0, 0)"
    by (simp only: blinkGreen_def Let_def f500) (simp add: js_rem_def)
  have g1500: "blinkGreen 1500 = (0, 1, 0)"
    by (simp only: blinkGreen_def Let_def f1500) (simp add: js_rem_def)
  have b0: "breatheBlue 0 = (0, 0, 1 / 2)"
    by (simp add: breatheBlue_def)
  have gen: "0 \<le> t \<longrightarrow>
      blinkGreen t = (0, of_int (\<lfloor>t / 1000\<rfloor> mod 2), 0)
    \<and> blinkPurple t = (of_int (\<lfloor>t / 1000\<rfloor> mod 2) / 2, 0, of_int (\<lfloor>t / 1000\<rfloor> mod 2))"
    using js_rem_nonneg [OF floor_elapsed_nonneg, of t]
    by (simp add: blinkGreen_def blinkPurple_def Let_def)
  have bb: "breatheBlue t = (0, 0, (1 + sin (t / 1000)) / 2)"
    by (simp add: breatheBlue_def Let_def)
  from gen bb g500 g1500 b0 show ?thesis by (intro conjI)
qed

theorem animation_sampling_witness:
  "(0::real) \<le> 2500
   \<and> blinkGreen 2500 = (0, 0, 0)
   \<and> blinkPurple 3000 = (1 / 2, 0, 1)"
proof -
  have f1: "\<lfloor>2500 / 1000 :: real\<rfloor> = 2"
    by (simp add: floor_eq_iff)
  have f2: "\<lfloor>3000 / 1000 :: real\<rfloor> = 3"
    by simp
  have a: "blinkGreen 2500 = (0, 0, 0)"
    using animation_sampling [of 2500, THEN conjunct1] by (simp add: f1)
  have b: "blinkPurple 3000 = (1 / 2, 0, 1)"
    using animation_sampling [of 3000, THEN conjunct1] by (simp add: f2)
  from a b show ?thesis by simp
qed

text \<open>
  For a negative argument, which is not an elapsed time, the remainder of JavaScript is
  negative where \<open>mod\<close> is not.
\<close>

lemma blinkGreen_negative_time: "blinkGreen (-500) = (0, -1, 0)"
proof -
  have "\<lfloor>- 500 / 1000 :: real\<rfloor> = -1" by (simp add: floor_eq_iff)
  then show ?thesis by (simp add: blinkGreen_def js_rem_def)
qed

end
